theory Spec2Isabelle
  imports Main "HOL-Library.AList"
begin

section \<open>Configuration values\<close>

text \<open>
  A candidate configuration is untyped structured data, as it comes out of a
  configuration file. An object is a list of key/value pairs in insertion order; a
  key is looked up with \<open>map_of\<close>. A key whose value is \<open>undefined\<close> is the same
  as a key that is absent. Numbers pass none of the rules of this file, so only
  their being numbers matters.
\<close>

datatype jvalue =
    JNull
  | JBool bool
  | JNumber int
  | JString string
  | JArray "jvalue list"
  | JObject "(string \<times> jvalue) list"

section \<open>Rule sets\<close>

text \<open>
  The schema objects of \<^verbatim>\<open>src/config/authentication.ts\<close> are data built with the Joi
  library: \<^verbatim>\<open>Joi.string()\<close>, \<^verbatim>\<open>Joi.boolean()\<close>, \<^verbatim>\<open>Joi.array().items(..)\<close>,
  \<^verbatim>\<open>Joi.alternatives([..])\<close>, \<^verbatim>\<open>Joi.object().keys({..})\<close>, \<^verbatim>\<open>.required()\<close> and
  \<^verbatim>\<open>.xor(..)\<close>. A \<open>rule\<close> is such a schema; the presence flag that \<^verbatim>\<open>.required()\<close>
  sets is kept with the key of the object that holds the rule, where it is read.
\<close>

datatype presence = Optional | Required

datatype rule =
    StringT
  | BooleanT
  | ArrayT "rule list"
  | AlternativesT "rule list"
  | ObjectT "(string \<times> presence \<times> rule) list option" "string list list"

type_synonym child = "string \<times> presence \<times> rule"

definition Joi_string :: rule where
  "Joi_string = StringT"

definition Joi_boolean :: rule where
  "Joi_boolean = BooleanT"

definition Joi_array :: rule where
  "Joi_array = ArrayT []"

definition Joi_alternatives :: "rule list \<Rightarrow> rule" where
  "Joi_alternatives rs = AlternativesT rs"

definition Joi_object :: rule where
  "Joi_object = ObjectT None []"

text \<open>A rule used as the value of a key is optional unless \<^verbatim>\<open>.required()\<close> was called.\<close>

definition optional :: "rule \<Rightarrow> presence \<times> rule" where
  "optional r = (Optional, r)"

definition required :: "rule \<Rightarrow> presence \<times> rule" where
  "required r = (Required, r)"

fun items :: "rule list \<Rightarrow> rule \<Rightarrow> rule" where
  "items rs (ArrayT old) = ArrayT (old @ rs)"
| "items rs r = r"

text \<open>
  \<^verbatim>\<open>schema.keys({..})\<close> keeps the keys of \<open>schema\<close> that the argument does not
  name, then adds the argument's keys in the order they are written: a key named
  again replaces the old rule and its presence flag.
\<close>

fun keys :: "child list \<Rightarrow> rule \<Rightarrow> rule" where
  "keys new (ObjectT old deps) =
     ObjectT (Some (filter (\<lambda>c. fst c \<notin> set (map fst new))
                      (case old of None \<Rightarrow> [] | Some cs \<Rightarrow> cs) @ new)) deps"
| "keys new r = r"

fun xor :: "string list \<Rightarrow> rule \<Rightarrow> rule" where
  "xor peers (ObjectT cs deps) = ObjectT cs (deps @ [peers])"
| "xor peers r = r"

section \<open>Violations\<close>

datatype segment = Key string | Index nat

datatype code =
    any_required
  | any_empty
  | string_base
  | boolean_base
  | array_base
  | array_includes
  | alternatives_base
  | object_base
  | object_allowUnknown
  | object_missing
  | object_xor

type_synonym violation = "segment list \<times> code"

definition under :: "segment \<Rightarrow> violation list \<Rightarrow> violation list" where
  "under s es = map (\<lambda>(path, c). (s # path, c)) es"

section \<open>The rule evaluator\<close>

text \<open>
  \<^verbatim>\<open>Joi.validate\<close> belongs to the library, not to the repository. What the library
  documents for the rules above, with the options the entry points leave at their
  defaults (\<^verbatim>\<open>abortEarly: true\<close>, \<^verbatim>\<open>convert: true\<close>, \<^verbatim>\<open>allowUnknown: false\<close>,
  \<^verbatim>\<open>presence: 'optional'\<close>), is written out here:
  \<^item> a string rule takes strings, but not the empty string;
  \<^item> a boolean rule takes booleans, and texts that read as a boolean, converted;
  \<^item> an array rule takes arrays whose elements each match one of the item rules,
    and JSON texts of such arrays, converted;
  \<^item> alternatives are tried in order and the first that accepts gives the value;
  \<^item> an object rule takes objects and JSON texts of objects; it walks its keys in
    the order of the schema and stops at the first that fails (a required key that
    is absent fails); it then reports every key it does not declare, and the first
    dependency between keys that does not hold;
  \<^item> no value is filled in for an absent key: no schema of the file sets a default.

  Two conversions read text and depend on the runtime and on the release of the
  library, so they are parameters: \<open>parse_json\<close> is \<^verbatim>\<open>JSON.parse\<close> (\<open>None\<close> where
  it throws), tried when a string meets an array or object rule, and
  \<open>parse_boolean\<close> is the table of texts that a boolean rule reads as a boolean.
\<close>

record conversions =
  parse_json :: "string \<Rightarrow> jvalue option"
  parse_boolean :: "string \<Rightarrow> bool option"

definition as_array :: "conversions \<Rightarrow> jvalue \<Rightarrow> jvalue list option" where
  "as_array L v =
     (case v of
        JArray xs \<Rightarrow> Some xs
      | JString s \<Rightarrow> (case parse_json L s of Some (JArray xs) \<Rightarrow> Some xs | _ \<Rightarrow> None)
      | _ \<Rightarrow> None)"

definition as_object :: "conversions \<Rightarrow> jvalue \<Rightarrow> (string \<times> jvalue) list option" where
  "as_object L v =
     (case v of
        JObject kvs \<Rightarrow> Some kvs
      | JString s \<Rightarrow> (case parse_json L s of Some (JObject kvs) \<Rightarrow> Some kvs | _ \<Rightarrow> None)
      | _ \<Rightarrow> None)"

text \<open>Keys of the candidate that no rule of the object names, in the candidate's order.\<close>

definition unknown_keys :: "child list \<Rightarrow> (string \<times> jvalue) list \<Rightarrow> violation list" where
  "unknown_keys cs kvs =
     map (\<lambda>k. ([Key k], object_allowUnknown))
       (filter (\<lambda>k. k \<notin> set (map fst cs)) (map fst kvs))"

text \<open>
  \<^verbatim>\<open>.xor(peers)\<close>: exactly one of the peers is a key of the object. The first
  dependency that fails is reported.
\<close>

fun dependencies :: "string list list \<Rightarrow> (string \<times> jvalue) list \<Rightarrow> violation list" where
  "dependencies [] kvs = []"
| "dependencies (peers # deps) kvs =
     (let present = filter (\<lambda>p. map_of kvs p \<noteq> None) peers in
      if length present = 1 then dependencies deps kvs
      else if present = [] then [([], object_missing)]
      else [([], object_xor)])"

text \<open>
  A result is the list of violations (empty on success) and the value as far as it
  was converted. \<open>first_match\<close> tries rules in order and stops at the first that
  accepts; \<open>check_items\<close> and \<open>validate_children\<close> stop at the first element or
  key that fails.
\<close>

function
  validate_rule :: "conversions \<Rightarrow> rule \<Rightarrow> jvalue \<Rightarrow> violation list \<times> jvalue" and
  first_match :: "conversions \<Rightarrow> rule list \<Rightarrow> jvalue \<Rightarrow> violation list + jvalue" and
  check_items :: "conversions \<Rightarrow> rule list \<Rightarrow> nat \<Rightarrow> jvalue list \<Rightarrow> violation list \<times> jvalue list" and
  validate_children ::
    "conversions \<Rightarrow> child list \<Rightarrow> (string \<times> jvalue) list \<Rightarrow> violation list \<times> (string \<times> jvalue) list"
where
  "validate_rule L StringT v =
     (case v of
        JString s \<Rightarrow> (if s = [] then ([([], any_empty)], v) else ([], v))
      | _ \<Rightarrow> ([([], string_base)], v))"
| "validate_rule L BooleanT v =
     (case v of
        JBool b \<Rightarrow> ([], v)
      | JString s \<Rightarrow>
          (case parse_boolean L s of
             Some b \<Rightarrow> ([], JBool b)
           | None \<Rightarrow> ([([], boolean_base)], v))
      | _ \<Rightarrow> ([([], boolean_base)], v))"
| "validate_rule L (ArrayT inclusions) v =
     (case as_array L v of
        None \<Rightarrow> ([([], array_base)], v)
      | Some xs \<Rightarrow>
          (case check_items L inclusions 0 xs of (errors, ys) \<Rightarrow> (errors, JArray ys)))"
| "validate_rule L (AlternativesT matches) v =
     (case first_match L matches v of
        Inr w \<Rightarrow> ([], w)
      | Inl errors \<Rightarrow> (if errors = [] then [([], alternatives_base)] else errors, v))"
| "validate_rule L (ObjectT children deps) v =
     (case as_object L v of
        None \<Rightarrow> ([([], object_base)], v)
      | Some kvs \<Rightarrow>
          (case children of
             None \<Rightarrow> (dependencies deps kvs, JObject kvs)
           | Some cs \<Rightarrow>
               (case validate_children L cs kvs of
                  (errors, target) \<Rightarrow>
                    if errors \<noteq> [] then (errors, JObject target)
                    else (unknown_keys cs target @ dependencies deps target, JObject target))))"
| "first_match L [] v = Inl []"
| "first_match L (r # rs) v =
     (case validate_rule L r v of
        (errors, w) \<Rightarrow>
          if errors = [] then Inr w
          else (case first_match L rs v of
                  Inl others \<Rightarrow> Inl (errors @ others)
                | Inr w' \<Rightarrow> Inr w'))"
| "check_items L inclusions i [] = ([], [])"
| "check_items L inclusions i (x # xs) =
     (if inclusions = [] then ([], x # xs)
      else (case first_match L inclusions x of
              Inr y \<Rightarrow> (case check_items L inclusions (Suc i) xs of (errors, ys) \<Rightarrow> (errors, y # ys))
            | Inl errors \<Rightarrow>
                (under (Index i) (if length inclusions = 1 then errors else [([], array_includes)]),
                 x # xs)))"
| "validate_children L [] kvs = ([], kvs)"
| "validate_children L ((k, p, r) # cs) kvs =
     (case map_of kvs k of
        None \<Rightarrow>
          (if p = Required then ([([Key k], any_required)], kvs)
           else validate_children L cs kvs)
      | Some v \<Rightarrow>
          (case validate_rule L r v of
             (errors, w) \<Rightarrow>
               if errors \<noteq> [] then (under (Key k) errors, kvs)
               else validate_children L cs (AList.update k w kvs)))"
  by pat_completeness auto

termination
  apply (relation "inv_image (less_than <*lex*> less_than) (\<lambda>x. case x of
      Inl (Inl (L, r, v)) \<Rightarrow> (3 * size r, 0)
    | Inl (Inr (L, rs, v)) \<Rightarrow> (3 * size_list size rs + 1, 0)
    | Inr (Inl (L, rs, i, xs)) \<Rightarrow> (3 * size_list size rs + 2, length xs)
    | Inr (Inr (L, cs, kvs)) \<Rightarrow>
        (3 * size_list (size_prod (\<lambda>x. 0) (size_prod (\<lambda>x. 0) size)) cs + 1, 0))")
  apply auto
  done

section \<open>The schemas of the repository\<close>

text \<open>
  \<^verbatim>\<open>middlewareConfigValidatorSchema\<close> is imported from \<^verbatim>\<open>./middleware\<close>, which is not
  among the sources; every schema that delegates to it takes it as the parameter
  \<open>middleware\<close>.
\<close>

definition jwtRequestExtractorSchema :: rule where
  "jwtRequestExtractorSchema = keys
     [(''authHeader'', optional Joi_string),
      (''bodyField'', optional Joi_string),
      (''cookie'', optional Joi_string),
      (''header'', optional Joi_string),
      (''queryParam'', optional Joi_string)] Joi_object"

definition jwtAuthenticationSchema :: "rule \<Rightarrow> rule" where
  "jwtAuthenticationSchema middleware = keys
     [(''algorithms'', optional (items [Joi_string] Joi_array)),
      (''audience'', optional Joi_string),
      (''extractFrom'', optional jwtRequestExtractorSchema),
      (''ignoreExpiration'', optional Joi_boolean),
      (''issuer'', optional Joi_string),
      (''secretOrKey'', required Joi_string),
      (''verify'', optional middleware)] Joi_object"

definition basicAuthenticationSchema :: "rule \<Rightarrow> rule" where
  "basicAuthenticationSchema middleware = keys
     [(''verify'', required middleware)] Joi_object"

definition localAuthenticationSchema :: "rule \<Rightarrow> rule" where
  "localAuthenticationSchema middleware = keys
     [(''passwordField'', optional Joi_string),
      (''usernameField'', optional Joi_string),
      (''verify'', required middleware)] Joi_object"

definition authenticationValidatorSchema :: "rule \<Rightarrow> rule" where
  "authenticationValidatorSchema middleware = keys
     [(''strategy'', required middleware)] Joi_object"

definition apiAuthenticationValidatorSchema :: "rule \<Rightarrow> rule" where
  "apiAuthenticationValidatorSchema middleware =
     xor [''strategy'', ''use'']
       (keys
          [(''group'', optional (Joi_alternatives [items [Joi_string] Joi_array, Joi_string])),
           (''strategy'', optional middleware),
           (''use'', optional Joi_string)]
          (authenticationValidatorSchema middleware))"

section \<open>The validation entry points\<close>

text \<open>
  \<^verbatim>\<open>Joi.validate(config, schema)\<close> returns an object with both an \<^verbatim>\<open>error\<close> (null
  on success) and a \<^verbatim>\<open>value\<close>; the value is there on failure too, converted as far
  as the evaluation went. A candidate that is \<^verbatim>\<open>undefined\<close> (\<open>None\<close>) passes every
  schema of this file, none of which is marked required at the top.
\<close>

record validation_result =
  error :: "violation list option"
  result_value :: "jvalue option"

definition Joi_validate :: "conversions \<Rightarrow> jvalue option \<Rightarrow> rule \<Rightarrow> validation_result" where
  "Joi_validate L config schema =
     (case config of
        None \<Rightarrow> \<lparr>error = None, result_value = None\<rparr>
      | Some v \<Rightarrow>
          (case validate_rule L schema v of
             (errors, w) \<Rightarrow>
               \<lparr>error = (if errors = [] then None else Some errors), result_value = Some w\<rparr>))"

text \<open>
  \<^verbatim>\<open>ValidationError\<close> comes from \<^verbatim>\<open>./errors\<close> and wraps the error of the library.
  A \<^verbatim>\<open>throw\<close> is the left injection, a \<^verbatim>\<open>return\<close> the right one.
\<close>

datatype thrown = ValidationError "violation list"

definition validateLocalAuthConfig ::
  "conversions \<Rightarrow> rule \<Rightarrow> jvalue option \<Rightarrow> thrown + jvalue option" where
  "validateLocalAuthConfig L middleware config =
     (let result = Joi_validate L config (localAuthenticationSchema middleware) in
      case error result of
        Some e \<Rightarrow> Inl (ValidationError e)
      | None \<Rightarrow> Inr (result_value result))"

definition validateBasicAuthConfig ::
  "conversions \<Rightarrow> rule \<Rightarrow> jvalue option \<Rightarrow> thrown + jvalue option" where
  "validateBasicAuthConfig L middleware config =
     (let result = Joi_validate L config (basicAuthenticationSchema middleware) in
      case error result of
        Some e \<Rightarrow> Inl (ValidationError e)
      | None \<Rightarrow> Inr (result_value result))"

definition validateJwtAuthConfig ::
  "conversions \<Rightarrow> rule \<Rightarrow> jvalue option \<Rightarrow> thrown + jvalue option" where
  "validateJwtAuthConfig L middleware config =
     (let result = Joi_validate L config (jwtAuthenticationSchema middleware) in
      case error result of
        Some e \<Rightarrow> Inl (ValidationError e)
      | None \<Rightarrow> Inr (result_value result))"

section \<open>Parameters of the concrete examples\<close>

text \<open>
  Modelled from the spec: \<^verbatim>\<open>middlewareConfigValidatorSchema\<close> (\<^verbatim>\<open>./middleware\<close> is not
  among the sources). The spec treats a middleware reference as an opaque inline
  definition, written \<^verbatim>\<open>{...}\<close>; the examples use the rule set that accepts every
  object and nothing else. The theorems hold for every rule set in its place.
\<close>

definition anyMiddlewareObject :: rule where
  "anyMiddlewareObject = Joi_object"

text \<open>
  The conversions of the examples: \<^verbatim>\<open>true\<close> and \<^verbatim>\<open>false\<close> are the texts every
  release of the library reads as booleans, and no example holds a text that
  \<^verbatim>\<open>JSON.parse\<close> accepts. The theorems hold for all conversions.
\<close>

definition example_conversions :: conversions where
  "example_conversions =
     \<lparr>parse_json = (\<lambda>s. None),
      parse_boolean =
        (\<lambda>s. if s = ''true'' then Some True else if s = ''false'' then Some False else None)\<rparr>"

section \<open>Candidates that conform to the interfaces\<close>

text \<open>
  The interfaces of the source give each field a type. The predicates below say
  that a candidate has the fields of an interface with values of the declared
  types, where a string is not empty (\<^verbatim>\<open>Joi.string()\<close> rejects the empty string) and
  a middleware reference is one the middleware rule set accepts.
\<close>

definition absent_or :: "(jvalue \<Rightarrow> bool) \<Rightarrow> jvalue option \<Rightarrow> bool" where
  "absent_or P field = (case field of None \<Rightarrow> True | Some v \<Rightarrow> P v)"

definition accepted :: "conversions \<Rightarrow> rule \<Rightarrow> jvalue \<Rightarrow> bool" where
  "accepted L r v = (fst (validate_rule L r v) = [])"

definition is_text :: "jvalue \<Rightarrow> bool" where
  "is_text v = (case v of JString s \<Rightarrow> s \<noteq> [] | _ \<Rightarrow> False)"

definition is_boolean :: "jvalue \<Rightarrow> bool" where
  "is_boolean v = (case v of JBool b \<Rightarrow> True | _ \<Rightarrow> False)"

definition is_text_array :: "jvalue \<Rightarrow> bool" where
  "is_text_array v = (case v of JArray xs \<Rightarrow> list_all is_text xs | _ \<Rightarrow> False)"

definition only_fields :: "string list \<Rightarrow> (string \<times> jvalue) list \<Rightarrow> bool" where
  "only_fields names kvs = list_all (\<lambda>k. k \<in> set names) (map fst kvs)"

definition extractor_fields :: "string list" where
  "extractor_fields = [''authHeader'', ''bodyField'', ''cookie'', ''header'', ''queryParam'']"

definition is_JWTRequestExtractor :: "jvalue \<Rightarrow> bool" where
  "is_JWTRequestExtractor v =
     (case v of
        JObject kvs \<Rightarrow>
          only_fields extractor_fields kvs \<and>
          list_all (\<lambda>k. absent_or is_text (map_of kvs k)) extractor_fields
      | _ \<Rightarrow> False)"

definition jwt_fields :: "string list" where
  "jwt_fields = [''algorithms'', ''audience'', ''extractFrom'', ''ignoreExpiration'',
                 ''issuer'', ''secretOrKey'', ''verify'']"

definition is_JWTAuthentication ::
  "conversions \<Rightarrow> rule \<Rightarrow> (string \<times> jvalue) list \<Rightarrow> bool" where
  "is_JWTAuthentication L middleware kvs =
     (only_fields jwt_fields kvs \<and>
      absent_or is_text_array (map_of kvs ''algorithms'') \<and>
      absent_or is_text (map_of kvs ''audience'') \<and>
      absent_or is_JWTRequestExtractor (map_of kvs ''extractFrom'') \<and>
      absent_or is_boolean (map_of kvs ''ignoreExpiration'') \<and>
      absent_or is_text (map_of kvs ''issuer'') \<and>
      (case map_of kvs ''secretOrKey'' of None \<Rightarrow> False | Some v \<Rightarrow> is_text v) \<and>
      absent_or (accepted L middleware) (map_of kvs ''verify''))"

text \<open>
  The fields of an \<^verbatim>\<open>ApiAuthenticationConfig\<close> candidate taken one by one, with
  nothing said about which of \<^verbatim>\<open>strategy\<close> and \<^verbatim>\<open>use\<close> is there. The schema takes
  a \<^verbatim>\<open>group\<close> that is a string as well as one that is a list of strings.
\<close>

definition api_fields :: "string list" where
  "api_fields = [''group'', ''strategy'', ''use'']"

definition is_group :: "jvalue \<Rightarrow> bool" where
  "is_group v = (is_text v \<or> is_text_array v)"

definition api_fields_valid ::
  "conversions \<Rightarrow> rule \<Rightarrow> (string \<times> jvalue) list \<Rightarrow> bool" where
  "api_fields_valid L middleware kvs =
     (only_fields api_fields kvs \<and>
      absent_or is_group (map_of kvs ''group'') \<and>
      absent_or (accepted L middleware) (map_of kvs ''strategy'') \<and>
      absent_or is_text (map_of kvs ''use''))"

text \<open>A key of an object passes when it is absent and optional, or present and accepted.\<close>

definition child_passes :: "conversions \<Rightarrow> (string \<times> jvalue) list \<Rightarrow> child \<Rightarrow> bool" where
  "child_passes L kvs c =
     (case c of (k, p, r) \<Rightarrow>
        (case map_of kvs k of
           None \<Rightarrow> p = Optional
         | Some v \<Rightarrow> fst (validate_rule L r v) = []))"

text \<open>The keys of each schema in the order the evaluator walks them.\<close>

definition extractor_children :: "child list" where
  "extractor_children =
     [(''authHeader'', Optional, StringT),
      (''bodyField'', Optional, StringT),
      (''cookie'', Optional, StringT),
      (''header'', Optional, StringT),
      (''queryParam'', Optional, StringT)]"

definition jwt_children :: "rule \<Rightarrow> child list" where
  "jwt_children middleware =
     [(''algorithms'', Optional, ArrayT [StringT]),
      (''audience'', Optional, StringT),
      (''extractFrom'', Optional, jwtRequestExtractorSchema),
      (''ignoreExpiration'', Optional, BooleanT),
      (''issuer'', Optional, StringT),
      (''secretOrKey'', Required, StringT),
      (''verify'', Optional, middleware)]"

definition local_fields :: "string list" where
  "local_fields = [''passwordField'', ''usernameField'', ''verify'']"

definition local_children :: "rule \<Rightarrow> child list" where
  "local_children middleware =
     [(''passwordField'', Optional, StringT),
      (''usernameField'', Optional, StringT),
      (''verify'', Required, middleware)]"

definition group_rule :: rule where
  "group_rule = AlternativesT [ArrayT [StringT], StringT]"

definition api_children :: "rule \<Rightarrow> child list" where
  "api_children middleware =
     [(''group'', Optional, group_rule),
      (''strategy'', Optional, middleware),
      (''use'', Optional, StringT)]"

section \<open>Properties of the rule evaluator\<close>

lemmas rule_defs =
  Joi_string_def Joi_boolean_def Joi_array_def Joi_alternatives_def Joi_object_def
  optional_def required_def

lemmas schema_defs =
  jwtRequestExtractorSchema_def jwtAuthenticationSchema_def basicAuthenticationSchema_def
  localAuthenticationSchema_def authenticationValidatorSchema_def
  apiAuthenticationValidatorSchema_def

lemma under_Nil_iff: "under s es = [] \<longleftrightarrow> es = []"
  by (simp add: under_def)

lemma map_of_update_other: "k' \<noteq> k \<Longrightarrow> map_of (AList.update k w kvs) k' = map_of kvs k'"
  by (simp add: update_conv')

lemma child_passes_update:
  "fst c \<noteq> k \<Longrightarrow> child_passes L (AList.update k w kvs) c = child_passes L kvs c"
  by (cases c) (simp add: child_passes_def map_of_update_other)

lemma children_keys: "map fst (snd (validate_children L cs kvs)) = map fst kvs"
proof (induction cs arbitrary: kvs)
  case Nil
  then show ?case by simp
next
  case (Cons c cs)
  obtain k p r where c: "c = (k, p, r)" by (cases c) auto
  show ?case
  proof (cases "map_of kvs k")
    case None
    then show ?thesis using Cons.IH [of kvs] c by simp
  next
    case (Some v)
    then have "k \<in> set (map fst kvs)"
      by (metis map_of_eq_None_iff option.distinct(1) set_map)
    then have "map fst (AList.update k w kvs) = map fst kvs" for w
      by (simp add: update_keys)
    then show ?thesis using Cons.IH Some c
      by (simp split: prod.splits)
  qed
qed

lemma children_pass:
  "distinct (map fst cs) \<Longrightarrow> list_all (child_passes L kvs) cs \<Longrightarrow>
   fst (validate_children L cs kvs) = []"
proof (induction cs arbitrary: kvs)
  case Nil
  then show ?case by simp
next
  case (Cons c cs)
  obtain k p r where c: "c = (k, p, r)" by (cases c) auto
  from Cons.prems c have k: "\<forall>c' \<in> set cs. fst c' \<noteq> k" and d: "distinct (map fst cs)"
    by auto
  show ?case
  proof (cases "map_of kvs k")
    case None
    with Cons c d show ?thesis by (simp add: child_passes_def)
  next
    case (Some v)
    obtain es w where r: "validate_rule L r v = (es, w)" by (cases "validate_rule L r v")
    with Cons.prems c Some have es: "es = []" by (simp add: child_passes_def)
    have "list_all (child_passes L (AList.update k w kvs)) cs"
      using Cons.prems(2) k by (simp add: list_all_iff child_passes_update)
    with Cons.IH [OF d this] c Some r es show ?thesis by simp
  qed
qed

lemma children_lookup_other:
  "k \<notin> set (map fst cs) \<Longrightarrow> map_of (snd (validate_children L cs kvs)) k = map_of kvs k"
proof (induction cs arbitrary: kvs)
  case Nil
  then show ?case by simp
next
  case (Cons c cs)
  obtain k' p r where c: "c = (k', p, r)" by (cases c) auto
  with Cons.prems have ne: "k \<noteq> k'" and rest: "k \<notin> set (map fst cs)" by auto
  show ?case
    using Cons.IH [OF rest] c ne
    by (simp add: map_of_update_other split: option.splits prod.splits)
qed

lemma children_lookup:
  "distinct (map fst cs) \<Longrightarrow> fst (validate_children L cs kvs) = [] \<Longrightarrow>
   (k, p, r) \<in> set cs \<Longrightarrow> map_of kvs k = Some v \<Longrightarrow>
   map_of (snd (validate_children L cs kvs)) k = Some (snd (validate_rule L r v))"
proof (induction cs arbitrary: kvs)
  case Nil
  then show ?case by simp
next
  case (Cons c cs)
  obtain k' p' r' where c: "c = (k', p', r')" by (cases c) auto
  from Cons.prems c have d: "distinct (map fst cs)" and k': "k' \<notin> set (map fst cs)" by auto
  show ?case
  proof (cases "k' = k")
    case True
    with Cons.prems c k' have same: "p' = p" "r' = r"
      by (auto simp: image_iff) 
    obtain es w where r: "validate_rule L r v = (es, w)" by (cases "validate_rule L r v")
    with Cons.prems c True same have es: "es = []"
      by (auto simp: under_Nil_iff split: if_splits)
    have "map_of (snd (validate_children L cs (AList.update k w kvs))) k
            = map_of (AList.update k w kvs) k"
      using k' True by (intro children_lookup_other) simp
    then show ?thesis using c True same r es Cons.prems(4)
      by (simp add: update_conv')
  next
    case False
    with Cons.prems c have mem: "(k, p, r) \<in> set cs" by auto
    show ?thesis
    proof (cases "map_of kvs k'")
      case None
      with Cons.prems c have "fst (validate_children L cs kvs) = []"
        by (auto split: if_splits)
      from Cons.IH [OF d this mem Cons.prems(4)] None c Cons.prems(2) show ?thesis
        by (auto split: if_splits)
    next
      case (Some v')
      obtain es w where r: "validate_rule L r' v' = (es, w)" by (cases "validate_rule L r' v'")
      with Cons.prems c Some have es: "es = []"
        by (auto simp: under_Nil_iff split: if_splits)
      with Cons.prems c Some r
      have ok: "fst (validate_children L cs (AList.update k' w kvs)) = []" by simp
      have "map_of (AList.update k' w kvs) k = Some v"
        using False Cons.prems(4) by (simp add: map_of_update_other)
      from Cons.IH [OF d ok mem this] c Some r es show ?thesis by simp
    qed
  qed
qed

lemma children_required_missing:
  "(k, Required, r) \<in> set cs \<Longrightarrow> map_of kvs k = None \<Longrightarrow>
   fst (validate_children L cs kvs) \<noteq> []"
proof (induction cs arbitrary: kvs)
  case Nil
  then show ?case by simp
next
  case (Cons c cs)
  obtain k' p' r' where c: "c = (k', p', r')" by (cases c) auto
  show ?case
  proof (cases "map_of kvs k'")
    case None
    with Cons c show ?thesis by auto
  next
    case (Some v')
    with Cons.prems have ne: "k \<noteq> k'" by auto
    with Cons.prems c have mem: "(k, Required, r) \<in> set cs" by auto
    have "map_of (AList.update k' w kvs) k = None" for w
      using ne Cons.prems(2) by (simp add: map_of_update_other)
    from Cons.IH [OF mem this] c Some show ?thesis
      by (auto simp: under_Nil_iff split: prod.splits)
  qed
qed

lemma children_first_required:
  "list_all (child_passes L kvs) pre \<Longrightarrow> distinct (map fst pre) \<Longrightarrow>
   k \<notin> set (map fst pre) \<Longrightarrow> map_of kvs k = None \<Longrightarrow>
   fst (validate_children L (pre @ (k, Required, r) # post) kvs) = [([Key k], any_required)]"
proof (induction pre arbitrary: kvs)
  case Nil
  then show ?case by simp
next
  case (Cons c pre)
  obtain k' p' r' where c: "c = (k', p', r')" by (cases c) auto
  from Cons.prems c have ne: "k \<noteq> k'" and d: "distinct (map fst pre)"
    and nk: "k \<notin> set (map fst pre)" and k': "\<forall>c' \<in> set pre. fst c' \<noteq> k'"
    by auto
  show ?case
  proof (cases "map_of kvs k'")
    case None
    with Cons.prems c have "p' = Optional" by (simp add: child_passes_def)
    with Cons.IH [of kvs] Cons.prems d nk None c show ?thesis by simp
  next
    case (Some v')
    obtain es w where r: "validate_rule L r' v' = (es, w)" by (cases "validate_rule L r' v'")
    with Cons.prems c Some have es: "es = []" by (simp add: child_passes_def)
    have a: "list_all (child_passes L (AList.update k' w kvs)) pre"
      using Cons.prems(1) k' by (simp add: list_all_iff child_passes_update)
    have b: "map_of (AList.update k' w kvs) k = None"
      using ne Cons.prems(4) by (simp add: map_of_update_other)
    from Cons.IH [OF a d nk b] c Some r es show ?thesis by simp
  qed
qed

lemma children_child_fails:
  "distinct (map fst cs) \<Longrightarrow> (k, p, r) \<in> set cs \<Longrightarrow> map_of kvs k = Some v \<Longrightarrow>
   fst (validate_rule L r v) \<noteq> [] \<Longrightarrow> fst (validate_children L cs kvs) \<noteq> []"
proof (induction cs arbitrary: kvs)
  case Nil
  then show ?case by simp
next
  case (Cons c cs)
  obtain k' p' r' where c: "c = (k', p', r')" by (cases c) auto
  from Cons.prems c have d: "distinct (map fst cs)" and k': "k' \<notin> set (map fst cs)" by auto
  show ?case
  proof (cases "k' = k")
    case True
    with Cons.prems c k' have "p' = p" "r' = r"
      by (auto simp: image_iff)
    with Cons.prems c True show ?thesis
      by (auto simp: under_Nil_iff split: prod.splits)
  next
    case False
    with Cons.prems c have mem: "(k, p, r) \<in> set cs" by auto
    have "map_of (AList.update k' w kvs) k = Some v" for w
      using False Cons.prems(3) by (simp add: map_of_update_other)
    from Cons.IH [OF d mem this Cons.prems(4)] Cons.IH [OF d mem Cons.prems(3) Cons.prems(4)] c
    show ?thesis
      by (auto simp: under_Nil_iff split: option.splits prod.splits)
  qed
qed

lemma object_unknown_key:
  "k \<in> set (map fst kvs) \<Longrightarrow> k \<notin> set (map fst cs) \<Longrightarrow>
   fst (validate_rule L (ObjectT (Some cs) deps) (JObject kvs)) \<noteq> []"
proof -
  assume k: "k \<in> set (map fst kvs)" and nk: "k \<notin> set (map fst cs)"
  obtain es target where vc: "validate_children L cs kvs = (es, target)"
    by (cases "validate_children L cs kvs")
  have "map fst target = map fst kvs"
    using children_keys [of L cs kvs] vc by simp
  with k nk have "unknown_keys cs target \<noteq> []"
    by (auto simp: unknown_keys_def filter_empty_conv)
  with vc show ?thesis
    by (simp add: as_object_def)
qed

lemma text_accepted: "is_text v \<Longrightarrow> validate_rule L StringT v = ([], v)"
  by (auto simp: is_text_def split: jvalue.splits)

lemma text_unchanged: "snd (validate_rule L StringT v) = v"
  by (auto split: jvalue.splits)

lemma boolean_accepted: "is_boolean v \<Longrightarrow> validate_rule L BooleanT v = ([], v)"
  by (auto simp: is_boolean_def split: jvalue.splits)

lemma check_items_text: "list_all is_text xs \<Longrightarrow> check_items L [StringT] i xs = ([], xs)"
  by (induction xs arbitrary: i) (simp_all add: text_accepted del: validate_rule.simps)

lemma check_items_text_same:
  "fst (check_items L [StringT] i xs) = [] \<Longrightarrow> snd (check_items L [StringT] i xs) = xs"
proof (induction xs arbitrary: i)
  case Nil
  then show ?case by simp
next
  case (Cons x xs)
  obtain es w where r: "validate_rule L StringT x = (es, w)" by (cases "validate_rule L StringT x")
  then have w: "w = x" using text_unchanged [of L x] by simp
  obtain es' ys where ci: "check_items L [StringT] (Suc i) xs = (es', ys)"
    by (cases "check_items L [StringT] (Suc i) xs")
  show ?case
  proof (cases "es = []")
    case True
    with Cons.prems r w ci have "es' = []"
      by (simp del: validate_rule.simps)
    with Cons.IH [of "Suc i"] ci have "ys = xs" by simp
    with True r w ci show ?thesis
      by (simp del: validate_rule.simps)
  next
    case False
    with Cons.prems r show ?thesis by (simp add: under_Nil_iff del: validate_rule.simps)
  qed
qed

lemma text_array_accepted: "is_text_array v \<Longrightarrow> validate_rule L (ArrayT [StringT]) v = ([], v)"
  by (auto simp: is_text_array_def as_array_def check_items_text split: jvalue.splits)


lemma dependencies_keys:
  "map fst kvs' = map fst kvs \<Longrightarrow> dependencies deps kvs' = dependencies deps kvs"
proof (induction deps)
  case Nil
  then show ?case by simp
next
  case (Cons peers deps)
  have "(map_of kvs' p \<noteq> None) = (map_of kvs p \<noteq> None)" for p
    using Cons.prems by (metis map_of_eq_None_iff set_map)
  with Cons show ?case by (simp add: Let_def)
qed

lemma unknown_keys_Nil: "only_fields (map fst cs) kvs \<Longrightarrow> unknown_keys cs kvs = []"
  by (simp add: only_fields_def unknown_keys_def list_all_iff filter_empty_conv)

lemma object_result:
  "validate_rule L (ObjectT (Some cs) deps) (JObject kvs) =
     (if fst (validate_children L cs kvs) \<noteq> []
      then (fst (validate_children L cs kvs), JObject (snd (validate_children L cs kvs)))
      else (unknown_keys cs kvs @ dependencies deps kvs,
            JObject (snd (validate_children L cs kvs))))"
proof -
  obtain es target where vc: "validate_children L cs kvs = (es, target)"
    by (cases "validate_children L cs kvs")
  then have keys: "map fst target = map fst kvs"
    using children_keys [of L cs kvs] by simp
  then have "unknown_keys cs target = unknown_keys cs kvs"
    by (simp add: unknown_keys_def)
  moreover have "dependencies deps target = dependencies deps kvs"
    using keys by (rule dependencies_keys)
  ultimately show ?thesis
    using vc by (simp add: as_object_def)
qed

lemma object_accepted:
  "distinct (map fst cs) \<Longrightarrow> list_all (child_passes L kvs) cs \<Longrightarrow>
   only_fields (map fst cs) kvs \<Longrightarrow> dependencies deps kvs = [] \<Longrightarrow>
   validate_rule L (ObjectT (Some cs) deps) (JObject kvs) =
     ([], JObject (snd (validate_children L cs kvs)))"
  by (simp add: object_result children_pass unknown_keys_Nil del: validate_rule.simps)

lemma child_passes_optional:
  "child_passes L kvs (k, Optional, r) = absent_or (accepted L r) (map_of kvs k)"
  by (simp add: child_passes_def absent_or_def accepted_def split: option.splits)

lemma absent_or_mono: "absent_or P field \<Longrightarrow> (\<And>v. P v \<Longrightarrow> Q v) \<Longrightarrow> absent_or Q field"
  by (auto simp: absent_or_def split: option.splits)

lemma text_is_accepted: "is_text v \<Longrightarrow> accepted L StringT v"
  by (simp add: accepted_def text_accepted del: validate_rule.simps)

lemma extractor_accepted:
  assumes "is_JWTRequestExtractor v"
  shows "accepted L jwtRequestExtractorSchema v"
proof -
  from assms obtain kvs where v: "v = JObject kvs"
    and only: "only_fields extractor_fields kvs"
    and each: "list_all (\<lambda>k. absent_or is_text (map_of kvs k)) extractor_fields"
    by (auto simp: is_JWTRequestExtractor_def split: jvalue.splits)
  from each have each': "list_all (\<lambda>k. absent_or (accepted L StringT) (map_of kvs k)) extractor_fields"
    by (simp add: list_all_iff) (blast intro: absent_or_mono text_is_accepted)
  have "jwtRequestExtractorSchema = ObjectT (Some (map (\<lambda>k. (k, Optional, StringT)) extractor_fields)) []"
    by (simp add: schema_defs rule_defs extractor_fields_def)
  moreover have "fst (validate_rule L (ObjectT (Some (map (\<lambda>k. (k, Optional, StringT)) extractor_fields)) []) (JObject kvs)) = []"
  proof -
    have "distinct (map fst (map (\<lambda>k. (k, Optional, StringT)) extractor_fields))"
      by (simp add: extractor_fields_def)
    moreover have "list_all (child_passes L kvs) (map (\<lambda>k. (k, Optional, StringT)) extractor_fields)"
      using each' by (simp add: list_all_iff child_passes_optional)
    moreover have "only_fields (map fst (map (\<lambda>k. (k, Optional, StringT)) extractor_fields)) kvs"
      using only by (simp add: comp_def)
    ultimately show ?thesis
      by (simp add: object_accepted del: validate_rule.simps)
  qed
  ultimately show ?thesis
    by (simp add: v accepted_def del: validate_rule.simps)
qed

lemma jwt_schema: "jwtAuthenticationSchema middleware = ObjectT (Some (jwt_children middleware)) []"
  by (simp add: schema_defs(2) rule_defs jwt_children_def)

lemma jwt_children_keys: "map fst (jwt_children middleware) = jwt_fields"
  by (simp add: jwt_children_def jwt_fields_def)

lemma text_array_is_accepted: "is_text_array v \<Longrightarrow> accepted L (ArrayT [StringT]) v"
  by (simp add: accepted_def text_array_accepted del: validate_rule.simps)

lemma boolean_is_accepted: "is_boolean v \<Longrightarrow> accepted L BooleanT v"
  by (simp add: accepted_def boolean_accepted del: validate_rule.simps)

lemma jwt_children_pass:
  assumes "is_JWTAuthentication L middleware kvs"
  shows "list_all (child_passes L kvs) (jwt_children middleware)"
proof -
  from assms have a: "absent_or (accepted L (ArrayT [StringT])) (map_of kvs ''algorithms'')"
    and b: "absent_or (accepted L StringT) (map_of kvs ''audience'')"
    and c: "absent_or (accepted L jwtRequestExtractorSchema) (map_of kvs ''extractFrom'')"
    and d: "absent_or (accepted L BooleanT) (map_of kvs ''ignoreExpiration'')"
    and e: "absent_or (accepted L StringT) (map_of kvs ''issuer'')"
    and g: "absent_or (accepted L middleware) (map_of kvs ''verify'')"
    unfolding is_JWTAuthentication_def
    by (blast intro: absent_or_mono text_is_accepted text_array_is_accepted
        boolean_is_accepted extractor_accepted)+
  from assms have f: "child_passes L kvs (''secretOrKey'', Required, StringT)"
    unfolding is_JWTAuthentication_def
    by (auto simp: child_passes_def text_accepted simp del: validate_rule.simps split: option.splits)
  from a b c d e f g show ?thesis
    by (simp add: jwt_children_def child_passes_optional del: validate_rule.simps)
qed

lemma jwt_accepted:
  assumes "is_JWTAuthentication L middleware kvs"
  shows "validate_rule L (jwtAuthenticationSchema middleware) (JObject kvs) =
           ([], JObject (snd (validate_children L (jwt_children middleware) kvs)))"
proof -
  have "distinct (map fst (jwt_children middleware))"
    by (simp add: jwt_children_keys jwt_fields_def)
  moreover from assms have "only_fields (map fst (jwt_children middleware)) kvs"
    by (simp add: jwt_children_keys is_JWTAuthentication_def)
  ultimately show ?thesis
    using jwt_children_pass [OF assms]
    by (simp add: jwt_schema object_accepted del: validate_rule.simps)
qed

lemma extractor_schema: "jwtRequestExtractorSchema = ObjectT (Some extractor_children) []"
  by (simp add: schema_defs rule_defs extractor_children_def)

lemma extractor_children_keys: "map fst extractor_children = extractor_fields"
  by (simp add: extractor_children_def extractor_fields_def)

lemma local_schema: "localAuthenticationSchema middleware = ObjectT (Some (local_children middleware)) []"
  by (simp add: schema_defs rule_defs local_children_def)

lemma local_children_keys: "map fst (local_children middleware) = local_fields"
  by (simp add: local_children_def local_fields_def)

lemma basic_schema:
  "basicAuthenticationSchema middleware = ObjectT (Some [(''verify'', Required, middleware)]) []"
  by (simp add: schema_defs rule_defs)

lemma authentication_schema:
  "authenticationValidatorSchema middleware = ObjectT (Some [(''strategy'', Required, middleware)]) []"
  by (simp add: schema_defs rule_defs)

lemma api_schema:
  "apiAuthenticationValidatorSchema middleware =
     ObjectT (Some (api_children middleware)) [[''strategy'', ''use'']]"
  by (simp add: schema_defs rule_defs api_children_def group_rule_def)

lemma api_children_keys: "map fst (api_children middleware) = api_fields"
  by (simp add: api_children_def api_fields_def)

lemma validateJwt_result:
  "validateJwtAuthConfig L middleware (Some v) =
     (if fst (validate_rule L (jwtAuthenticationSchema middleware) v) = []
      then Inr (Some (snd (validate_rule L (jwtAuthenticationSchema middleware) v)))
      else Inl (ValidationError (fst (validate_rule L (jwtAuthenticationSchema middleware) v))))"
  by (simp add: validateJwtAuthConfig_def Joi_validate_def split: prod.splits)

lemma validateLocal_result:
  "validateLocalAuthConfig L middleware (Some v) =
     (if fst (validate_rule L (localAuthenticationSchema middleware) v) = []
      then Inr (Some (snd (validate_rule L (localAuthenticationSchema middleware) v)))
      else Inl (ValidationError (fst (validate_rule L (localAuthenticationSchema middleware) v))))"
  by (simp add: validateLocalAuthConfig_def Joi_validate_def split: prod.splits)

lemma validateBasic_result:
  "validateBasicAuthConfig L middleware (Some v) =
     (if fst (validate_rule L (basicAuthenticationSchema middleware) v) = []
      then Inr (Some (snd (validate_rule L (basicAuthenticationSchema middleware) v)))
      else Inl (ValidationError (fst (validate_rule L (basicAuthenticationSchema middleware) v))))"
  by (simp add: validateBasicAuthConfig_def Joi_validate_def split: prod.splits)

lemma Joi_validate_error:
  "error (Joi_validate L (Some v) schema) = None \<longleftrightarrow> fst (validate_rule L schema v) = []"
  by (simp add: Joi_validate_def split: prod.splits)

lemma only_fields_update:
  "k \<in> set names \<Longrightarrow> only_fields names kvs \<Longrightarrow> only_fields names (AList.update k v kvs)"
  by (simp add: only_fields_def update_keys list_all_iff)

lemma Joi_validate_result:
  "Joi_validate L (Some v) schema =
     \<lparr>error = (if fst (validate_rule L schema v) = [] then None
               else Some (fst (validate_rule L schema v))),
      result_value = Some (snd (validate_rule L schema v))\<rparr>"
  by (simp add: Joi_validate_def split: prod.splits)

lemma group_accepted: "is_group v \<Longrightarrow> accepted L group_rule v"
proof -
  assume "is_group v"
  then consider "is_text v" | "is_text_array v" by (auto simp: is_group_def)
  then show ?thesis
  proof cases
    case 1
    then have s: "validate_rule L StringT v = ([], v)" by (rule text_accepted)
    obtain es w where a: "validate_rule L (ArrayT [StringT]) v = (es, w)"
      by (cases "validate_rule L (ArrayT [StringT]) v")
    show ?thesis
      using s a by (simp add: accepted_def group_rule_def del: validate_rule.simps(1,3))
  next
    case 2
    then have "validate_rule L (ArrayT [StringT]) v = ([], v)" by (rule text_array_accepted)
    then show ?thesis
      by (simp add: accepted_def group_rule_def del: validate_rule.simps(1,3))
  qed
qed

lemma group_string_result:
  assumes "as_array L (JString s) = None"
    and "fst (validate_rule L group_rule (JString s)) = []"
  shows "snd (validate_rule L group_rule (JString s)) = JString s"
proof -
  from assms(1) have "validate_rule L (ArrayT [StringT]) (JString s) = ([([], array_base)], JString s)"
    by simp
  then show ?thesis
    using text_unchanged [of L "JString s"]
    by (cases "validate_rule L StringT (JString s)")
      (simp add: group_rule_def del: validate_rule.simps(1,3))
qed

lemma group_array_result:
  assumes "fst (validate_rule L group_rule (JArray xs)) = []"
  shows "snd (validate_rule L group_rule (JArray xs)) = JArray xs"
proof -
  obtain es ys where ci: "check_items L [StringT] 0 xs = (es, ys)"
    by (cases "check_items L [StringT] 0 xs")
  then have a: "validate_rule L (ArrayT [StringT]) (JArray xs) = (es, JArray ys)"
    by (simp add: as_array_def)
  have s: "validate_rule L StringT (JArray xs) = ([([], string_base)], JArray xs)"
    by simp
  from assms a s have "es = []"
    by (simp add: group_rule_def del: validate_rule.simps(1,3) split: if_splits)
  with ci check_items_text_same [of L 0 xs] have "ys = xs" by simp
  with a \<open>es = []\<close> show ?thesis
    by (simp add: group_rule_def del: validate_rule.simps(1,3))
qed

lemma api_dependencies:
  "dependencies [[''strategy'', ''use'']] kvs =
     (if (map_of kvs ''strategy'' = None) \<noteq> (map_of kvs ''use'' = None) then []
      else if map_of kvs ''strategy'' = None then [([], object_missing)]
      else [([], object_xor)])"
  by (auto simp: Let_def)

lemma api_children_pass:
  assumes "api_fields_valid L middleware kvs"
  shows "list_all (child_passes L kvs) (api_children middleware)"
proof -
  from assms have "absent_or (accepted L group_rule) (map_of kvs ''group'')"
    and "absent_or (accepted L middleware) (map_of kvs ''strategy'')"
    and "absent_or (accepted L StringT) (map_of kvs ''use'')"
    unfolding api_fields_valid_def
    by (blast intro: absent_or_mono group_accepted text_is_accepted)+
  then show ?thesis
    by (simp add: api_children_def child_passes_optional del: validate_rule.simps)
qed

lemma children_success_passes:
  assumes "distinct (map fst cs)" and "fst (validate_children L cs kvs) = []"
  shows "list_all (child_passes L kvs) cs"
proof -
  have "child_passes L kvs c" if c: "c \<in> set cs" for c
  proof -
    obtain k p r where kpr: "c = (k, p, r)" by (cases c) auto
    show ?thesis
    proof (cases "map_of kvs k")
      case None
      have "p = Optional"
      proof (rule ccontr)
        assume "p \<noteq> Optional"
        then have "p = Required" by (cases p) auto
        with c kpr have "(k, Required, r) \<in> set cs" by simp
        from children_required_missing [OF this None] assms(2) show False by blast
      qed
      with None kpr show ?thesis by (simp add: child_passes_def)
    next
      case (Some v)
      from c kpr have "(k, p, r) \<in> set cs" by simp
      from children_child_fails [OF assms(1) this Some] assms(2)
      have "fst (validate_rule L r v) = []" by blast
      with Some kpr show ?thesis by (simp add: child_passes_def del: validate_rule.simps)
    qed
  qed
  then show ?thesis by (simp add: list_all_iff)
qed

lemma unknown_keys_only_fields: "unknown_keys cs kvs = [] \<Longrightarrow> only_fields (map fst cs) kvs"
  by (auto simp: only_fields_def unknown_keys_def list_all_iff filter_empty_conv)

lemma extractor_fieldwise:
  assumes "only_fields extractor_fields ekvs"
    and "list_all (\<lambda>k. absent_or (accepted L Joi_string) (map_of ekvs k)) extractor_fields"
  shows "accepted L jwtRequestExtractorSchema (JObject ekvs)"
proof -
  have "distinct (map fst extractor_children)"
    by (simp add: extractor_children_keys extractor_fields_def)
  moreover have "list_all (child_passes L ekvs) extractor_children"
    using assms(2)
    by (simp add: extractor_children_def extractor_fields_def child_passes_optional Joi_string_def
        del: validate_rule.simps)
  moreover have "only_fields (map fst extractor_children) ekvs"
    using assms(1) by (simp add: extractor_children_keys)
  ultimately show ?thesis
    by (simp add: accepted_def extractor_schema object_accepted del: validate_rule.simps)
qed

section \<open>The claims\<close>

text \<open>
  Claim C6, as amended. A candidate that conforms to \<^verbatim>\<open>JWTAuthentication\<close> with every
  string non-empty, \<^verbatim>\<open>verify\<close> accepted by the middleware rules and no key besides
  the seven declared ones is accepted by \<^verbatim>\<open>validateJwtAuthConfig\<close>, and the value
  returned has the \<^verbatim>\<open>secretOrKey\<close> of the candidate.
\<close>

theorem jwt_conforming_accepted:
  assumes "is_JWTAuthentication L middleware kvs"
    and "map_of kvs ''secretOrKey'' = Some (JString s)"
  shows "\<exists>kvs'. validateJwtAuthConfig L middleware (Some (JObject kvs)) = Inr (Some (JObject kvs'))
           \<and> map_of kvs' ''secretOrKey'' = Some (JString s)"
proof -
  let ?kvs' = "snd (validate_children L (jwt_children middleware) kvs)"
  have d: "distinct (map fst (jwt_children middleware))"
    by (simp add: jwt_children_keys jwt_fields_def)
  have ok: "fst (validate_children L (jwt_children middleware) kvs) = []"
    using d jwt_children_pass [OF assms(1)] by (rule children_pass)
  have mem: "(''secretOrKey'', Required, StringT) \<in> set (jwt_children middleware)"
    by (simp add: jwt_children_def)
  have "map_of ?kvs' ''secretOrKey'' = Some (snd (validate_rule L StringT (JString s)))"
    using d ok mem assms(2) by (rule children_lookup)
  then have "map_of ?kvs' ''secretOrKey'' = Some (JString s)"
    by (simp add: text_unchanged del: validate_rule.simps)
  moreover have "validateJwtAuthConfig L middleware (Some (JObject kvs)) = Inr (Some (JObject ?kvs'))"
    by (simp add: validateJwt_result jwt_accepted [OF assms(1)] del: validate_rule.simps)
  ultimately show ?thesis by blast
qed

text \<open>The amended claim C6 at a candidate with four fields.\<close>

theorem jwt_conforming_accepted_witness:
  "is_JWTAuthentication example_conversions anyMiddlewareObject
     [(''secretOrKey'', JString ''shhh''), (''algorithms'', JArray [JString ''HS256'']),
      (''ignoreExpiration'', JBool True), (''verify'', JObject [(''name'', JString ''verifyJwt'')])]
   \<and> (\<exists>kvs'. validateJwtAuthConfig example_conversions anyMiddlewareObject
        (Some (JObject
          [(''secretOrKey'', JString ''shhh''), (''algorithms'', JArray [JString ''HS256'']),
           (''ignoreExpiration'', JBool True), (''verify'', JObject [(''name'', JString ''verifyJwt'')])]))
        = Inr (Some (JObject kvs'))
      \<and> map_of kvs' ''secretOrKey'' = Some (JString ''shhh''))"
proof -
  have h: "is_JWTAuthentication example_conversions anyMiddlewareObject
     [(''secretOrKey'', JString ''shhh''), (''algorithms'', JArray [JString ''HS256'']),
      (''ignoreExpiration'', JBool True), (''verify'', JObject [(''name'', JString ''verifyJwt'')])]"
    by (simp add: is_JWTAuthentication_def only_fields_def jwt_fields_def absent_or_def
        is_text_array_def is_text_def is_boolean_def accepted_def anyMiddlewareObject_def
        Joi_object_def as_object_def)
  from h jwt_conforming_accepted [OF h, of "''shhh''"] show ?thesis by simp
qed

text \<open>
  Claim C6 as stated fails: an empty \<^verbatim>\<open>secretOrKey\<close> is a string, and the candidate is
  rejected.
\<close>

theorem jwt_empty_secret_counterexample:
  "validateJwtAuthConfig example_conversions anyMiddlewareObject
     (Some (JObject [(''secretOrKey'', JString '''')]))
   = Inl (ValidationError [([Key ''secretOrKey''], any_empty)])"
  by (simp add: validateJwt_result jwt_schema jwt_children_def as_object_def under_def)

text \<open>
  Claim C4, as amended. A candidate object without \<^verbatim>\<open>secretOrKey\<close> is always thrown
  out by \<^verbatim>\<open>validateJwtAuthConfig\<close>. The violation is the required-field violation on
  \<^verbatim>\<open>secretOrKey\<close> when the five keys the evaluator checks before it (\<^verbatim>\<open>algorithms\<close>,
  \<^verbatim>\<open>audience\<close>, \<^verbatim>\<open>extractFrom\<close>, \<^verbatim>\<open>ignoreExpiration\<close>, \<^verbatim>\<open>issuer\<close>) are absent or
  accepted by their rules.
\<close>

theorem jwt_missing_secretOrKey:
  assumes "map_of kvs ''secretOrKey'' = None"
  shows "(\<exists>e. validateJwtAuthConfig L middleware (Some (JObject kvs)) = Inl (ValidationError e))
       \<and> (absent_or (accepted L (items [Joi_string] Joi_array)) (map_of kvs ''algorithms'')
          \<and> absent_or (accepted L Joi_string) (map_of kvs ''audience'')
          \<and> absent_or (accepted L jwtRequestExtractorSchema) (map_of kvs ''extractFrom'')
          \<and> absent_or (accepted L Joi_boolean) (map_of kvs ''ignoreExpiration'')
          \<and> absent_or (accepted L Joi_string) (map_of kvs ''issuer'')
          \<longrightarrow> validateJwtAuthConfig L middleware (Some (JObject kvs))
                = Inl (ValidationError [([Key ''secretOrKey''], any_required)]))"
proof
  have mem: "(''secretOrKey'', Required, StringT) \<in> set (jwt_children middleware)"
    by (simp add: jwt_children_def)
  from mem assms have "fst (validate_children L (jwt_children middleware) kvs) \<noteq> []"
    by (rule children_required_missing)
  then show "\<exists>e. validateJwtAuthConfig L middleware (Some (JObject kvs)) = Inl (ValidationError e)"
    by (simp add: validateJwt_result jwt_schema object_result del: validate_rule.simps)
next
  let ?pre = "[(''algorithms'', Optional, ArrayT [StringT]),
               (''audience'', Optional, StringT),
               (''extractFrom'', Optional, jwtRequestExtractorSchema),
               (''ignoreExpiration'', Optional, BooleanT),
               (''issuer'', Optional, StringT)]"
  have split: "jwt_children middleware =
      ?pre @ (''secretOrKey'', Required, StringT) # [(''verify'', Optional, middleware)]"
    by (simp add: jwt_children_def)
  show "absent_or (accepted L (items [Joi_string] Joi_array)) (map_of kvs ''algorithms'')
          \<and> absent_or (accepted L Joi_string) (map_of kvs ''audience'')
          \<and> absent_or (accepted L jwtRequestExtractorSchema) (map_of kvs ''extractFrom'')
          \<and> absent_or (accepted L Joi_boolean) (map_of kvs ''ignoreExpiration'')
          \<and> absent_or (accepted L Joi_string) (map_of kvs ''issuer'')
          \<longrightarrow> validateJwtAuthConfig L middleware (Some (JObject kvs))
                = Inl (ValidationError [([Key ''secretOrKey''], any_required)])"
  proof
    assume "absent_or (accepted L (items [Joi_string] Joi_array)) (map_of kvs ''algorithms'')
          \<and> absent_or (accepted L Joi_string) (map_of kvs ''audience'')
          \<and> absent_or (accepted L jwtRequestExtractorSchema) (map_of kvs ''extractFrom'')
          \<and> absent_or (accepted L Joi_boolean) (map_of kvs ''ignoreExpiration'')
          \<and> absent_or (accepted L Joi_string) (map_of kvs ''issuer'')"
    then have "list_all (child_passes L kvs) ?pre"
      by (simp add: child_passes_optional rule_defs del: validate_rule.simps)
    moreover have "distinct (map fst ?pre)" by simp
    moreover have "''secretOrKey'' \<notin> set (map fst ?pre)" by simp
    ultimately have "fst (validate_children L (jwt_children middleware) kvs)
        = [([Key ''secretOrKey''], any_required)]"
      unfolding split using assms by (rule children_first_required)
    then show "validateJwtAuthConfig L middleware (Some (JObject kvs))
                = Inl (ValidationError [([Key ''secretOrKey''], any_required)])"
      by (simp add: validateJwt_result jwt_schema object_result del: validate_rule.simps)
  qed
qed

text \<open>The amended claim C4 at a candidate with two accepted fields and no \<^verbatim>\<open>secretOrKey\<close>.\<close>

theorem jwt_missing_secretOrKey_witness:
  "map_of [(''issuer'', JString ''accounts.example.com''), (''ignoreExpiration'', JBool False)]
     ''secretOrKey'' = None
   \<and> validateJwtAuthConfig example_conversions anyMiddlewareObject
        (Some (JObject [(''issuer'', JString ''accounts.example.com''),
                        (''ignoreExpiration'', JBool False)]))
      = Inl (ValidationError [([Key ''secretOrKey''], any_required)])"
proof -
  have h: "map_of [(''issuer'', JString ''accounts.example.com''),
      (''ignoreExpiration'', JBool False)] ''secretOrKey'' = None"
    by simp
  from jwt_missing_secretOrKey [OF h, of example_conversions anyMiddlewareObject] h
  show ?thesis
    by (simp add: absent_or_def accepted_def rule_defs)
qed

text \<open>
  Claim C4 as stated fails: the evaluator stops at the first key that fails, so an
  empty \<^verbatim>\<open>audience\<close> is the violation reported and \<^verbatim>\<open>secretOrKey\<close> is not named.
\<close>

theorem jwt_missing_secretOrKey_counterexample:
  "validateJwtAuthConfig example_conversions anyMiddlewareObject
     (Some (JObject [(''audience'', JString '''')]))
   = Inl (ValidationError [([Key ''audience''], any_empty)])"
  by (simp add: validateJwt_result jwt_schema jwt_children_def as_object_def under_def)

text \<open>
  Claim C10. A candidate object with a key that the matching schema does not declare
  is rejected: by each of the three entry points, by the two exported schemas and by
  the extractor schema, also when the extractor sits inside a JWT candidate as its
  \<^verbatim>\<open>extractFrom\<close>. The key is never dropped in silence.
\<close>

theorem unknown_keys_rejected:
  assumes "k \<in> set (map fst kvs)"
  shows "(k \<notin> set jwt_fields \<longrightarrow>
            (\<exists>e. validateJwtAuthConfig L middleware (Some (JObject kvs)) = Inl (ValidationError e)))
       \<and> (k \<noteq> ''verify'' \<longrightarrow>
            (\<exists>e. validateBasicAuthConfig L middleware (Some (JObject kvs)) = Inl (ValidationError e)))
       \<and> (k \<notin> set local_fields \<longrightarrow>
            (\<exists>e. validateLocalAuthConfig L middleware (Some (JObject kvs)) = Inl (ValidationError e)))
       \<and> (k \<notin> set extractor_fields \<longrightarrow>
            error (Joi_validate L (Some (JObject kvs)) jwtRequestExtractorSchema) \<noteq> None)
       \<and> (k \<noteq> ''strategy'' \<longrightarrow>
            error (Joi_validate L (Some (JObject kvs)) (authenticationValidatorSchema middleware)) \<noteq> None)
       \<and> (k \<notin> set api_fields \<longrightarrow>
            error (Joi_validate L (Some (JObject kvs)) (apiAuthenticationValidatorSchema middleware)) \<noteq> None)
       \<and> (k \<notin> set extractor_fields \<longrightarrow>
            (\<exists>e. validateJwtAuthConfig L middleware
                   (Some (JObject (AList.update ''extractFrom'' (JObject kvs) outer)))
                 = Inl (ValidationError e)))"
proof (intro conjI impI)
  assume "k \<notin> set jwt_fields"
  with assms have "fst (validate_rule L (jwtAuthenticationSchema middleware) (JObject kvs)) \<noteq> []"
    unfolding jwt_schema by (intro object_unknown_key) (simp_all add: jwt_children_keys)
  then show "\<exists>e. validateJwtAuthConfig L middleware (Some (JObject kvs)) = Inl (ValidationError e)"
    by (simp add: validateJwt_result del: validate_rule.simps)
next
  assume "k \<noteq> ''verify''"
  with assms have "fst (validate_rule L (basicAuthenticationSchema middleware) (JObject kvs)) \<noteq> []"
    unfolding basic_schema by (intro object_unknown_key) simp_all
  then show "\<exists>e. validateBasicAuthConfig L middleware (Some (JObject kvs)) = Inl (ValidationError e)"
    by (simp add: validateBasic_result del: validate_rule.simps)
next
  assume "k \<notin> set local_fields"
  with assms have "fst (validate_rule L (localAuthenticationSchema middleware) (JObject kvs)) \<noteq> []"
    unfolding local_schema by (intro object_unknown_key) (simp_all add: local_children_keys)
  then show "\<exists>e. validateLocalAuthConfig L middleware (Some (JObject kvs)) = Inl (ValidationError e)"
    by (simp add: validateLocal_result del: validate_rule.simps)
next
  assume "k \<notin> set extractor_fields"
  with assms have "fst (validate_rule L jwtRequestExtractorSchema (JObject kvs)) \<noteq> []"
    unfolding extractor_schema by (intro object_unknown_key) (simp_all add: extractor_children_keys)
  then show "error (Joi_validate L (Some (JObject kvs)) jwtRequestExtractorSchema) \<noteq> None"
    by (simp add: Joi_validate_error del: validate_rule.simps)
next
  assume "k \<noteq> ''strategy''"
  with assms have "fst (validate_rule L (authenticationValidatorSchema middleware) (JObject kvs)) \<noteq> []"
    unfolding authentication_schema by (intro object_unknown_key) simp_all
  then show "error (Joi_validate L (Some (JObject kvs)) (authenticationValidatorSchema middleware)) \<noteq> None"
    by (simp add: Joi_validate_error del: validate_rule.simps)
next
  assume "k \<notin> set api_fields"
  with assms have "fst (validate_rule L (apiAuthenticationValidatorSchema middleware) (JObject kvs)) \<noteq> []"
    unfolding api_schema by (intro object_unknown_key) (simp_all add: api_children_keys)
  then show "error (Joi_validate L (Some (JObject kvs)) (apiAuthenticationValidatorSchema middleware)) \<noteq> None"
    by (simp add: Joi_validate_error del: validate_rule.simps)
next
  let ?cand = "AList.update ''extractFrom'' (JObject kvs) outer"
  assume "k \<notin> set extractor_fields"
  with assms have bad: "fst (validate_rule L jwtRequestExtractorSchema (JObject kvs)) \<noteq> []"
    unfolding extractor_schema by (intro object_unknown_key) (simp_all add: extractor_children_keys)
  have d: "distinct (map fst (jwt_children middleware))"
    by (simp add: jwt_children_keys jwt_fields_def)
  have mem: "(''extractFrom'', Optional, jwtRequestExtractorSchema) \<in> set (jwt_children middleware)"
    by (simp add: jwt_children_def)
  have "map_of ?cand ''extractFrom'' = Some (JObject kvs)"
    by (simp add: update_conv')
  with d mem have "fst (validate_children L (jwt_children middleware) ?cand) \<noteq> []"
    using bad by (rule children_child_fails)
  then show "\<exists>e. validateJwtAuthConfig L middleware (Some (JObject ?cand)) = Inl (ValidationError e)"
    by (simp add: validateJwt_result jwt_schema object_result del: validate_rule.simps)
qed

text \<open>Claim C10 at a JWT candidate with the extra key \<^verbatim>\<open>realm\<close>.\<close>

theorem unknown_keys_rejected_witness:
  "''realm'' \<in> set (map fst [(''secretOrKey'', JString ''shhh''), (''realm'', JString ''users'')])
   \<and> ''realm'' \<notin> set jwt_fields
   \<and> validateJwtAuthConfig example_conversions anyMiddlewareObject
        (Some (JObject [(''secretOrKey'', JString ''shhh''), (''realm'', JString ''users'')]))
      = Inl (ValidationError [([Key ''realm''], object_allowUnknown)])"
proof -
  have h: "''realm'' \<in> set (map fst [(''secretOrKey'', JString ''shhh''), (''realm'', JString ''users'')])"
    by simp
  from unknown_keys_rejected [OF h, of example_conversions anyMiddlewareObject] h
  show ?thesis
    by (simp add: jwt_fields_def validateJwt_result jwt_schema jwt_children_def as_object_def
        unknown_keys_def)
qed

text \<open>
  Claim C5, as amended. A candidate object without \<^verbatim>\<open>verify\<close> is thrown out by
  \<^verbatim>\<open>validateBasicAuthConfig\<close> with the required-field violation on \<^verbatim>\<open>verify\<close>, and
  is always thrown out by \<^verbatim>\<open>validateLocalAuthConfig\<close>; there the violation is the
  required-field violation on \<^verbatim>\<open>verify\<close> when \<^verbatim>\<open>passwordField\<close> and \<^verbatim>\<open>usernameField\<close>,
  which the evaluator checks first, are absent or accepted by the string rule.
\<close>

theorem missing_verify:
  assumes "map_of kvs ''verify'' = None"
  shows "validateBasicAuthConfig L middleware (Some (JObject kvs))
           = Inl (ValidationError [([Key ''verify''], any_required)])
       \<and> (\<exists>e. validateLocalAuthConfig L middleware (Some (JObject kvs)) = Inl (ValidationError e))
       \<and> (absent_or (accepted L Joi_string) (map_of kvs ''passwordField'')
          \<and> absent_or (accepted L Joi_string) (map_of kvs ''usernameField'')
          \<longrightarrow> validateLocalAuthConfig L middleware (Some (JObject kvs))
                = Inl (ValidationError [([Key ''verify''], any_required)]))"
proof (intro conjI impI)
  show "validateBasicAuthConfig L middleware (Some (JObject kvs))
           = Inl (ValidationError [([Key ''verify''], any_required)])"
    using assms
    by (simp add: validateBasic_result basic_schema object_result del: validate_rule.simps)
next
  have "(''verify'', Required, middleware) \<in> set (local_children middleware)"
    by (simp add: local_children_def)
  then have "fst (validate_children L (local_children middleware) kvs) \<noteq> []"
    using assms by (rule children_required_missing)
  then show "\<exists>e. validateLocalAuthConfig L middleware (Some (JObject kvs)) = Inl (ValidationError e)"
    by (simp add: validateLocal_result local_schema object_result del: validate_rule.simps)
next
  let ?pre = "[(''passwordField'', Optional, StringT), (''usernameField'', Optional, StringT)]"
  assume "absent_or (accepted L Joi_string) (map_of kvs ''passwordField'')
          \<and> absent_or (accepted L Joi_string) (map_of kvs ''usernameField'')"
  then have "list_all (child_passes L kvs) ?pre"
    by (simp add: child_passes_optional rule_defs del: validate_rule.simps)
  moreover have "distinct (map fst ?pre)" by simp
  moreover have "''verify'' \<notin> set (map fst ?pre)" by simp
  ultimately have "fst (validate_children L (?pre @ (''verify'', Required, middleware) # []) kvs)
      = [([Key ''verify''], any_required)]"
    using assms by (rule children_first_required)
  then have "fst (validate_children L (local_children middleware) kvs)
      = [([Key ''verify''], any_required)]"
    by (simp add: local_children_def del: validate_children.simps)
  then show "validateLocalAuthConfig L middleware (Some (JObject kvs))
                = Inl (ValidationError [([Key ''verify''], any_required)])"
    by (simp add: validateLocal_result local_schema object_result del: validate_rule.simps)
qed

text \<open>The amended claim C5 at a candidate that only names a username field.\<close>

theorem missing_verify_witness:
  "map_of [(''usernameField'', JString ''email'')] ''verify'' = None
   \<and> validateBasicAuthConfig example_conversions anyMiddlewareObject
        (Some (JObject [(''usernameField'', JString ''email'')]))
      = Inl (ValidationError [([Key ''verify''], any_required)])
   \<and> validateLocalAuthConfig example_conversions anyMiddlewareObject
        (Some (JObject [(''usernameField'', JString ''email'')]))
      = Inl (ValidationError [([Key ''verify''], any_required)])"
proof -
  have h: "map_of [(''usernameField'', JString ''email'')] ''verify'' = None"
    by simp
  from missing_verify [OF h, of example_conversions anyMiddlewareObject] h
  show ?thesis
    by (simp add: absent_or_def accepted_def rule_defs)
qed

text \<open>
  Claim C5 as stated fails for \<^verbatim>\<open>LocalAuthentication\<close>: with an empty \<^verbatim>\<open>passwordField\<close>
  and no \<^verbatim>\<open>verify\<close>, the violation reported is on \<^verbatim>\<open>passwordField\<close> alone.
\<close>

theorem missing_verify_counterexample:
  "validateLocalAuthConfig example_conversions anyMiddlewareObject
     (Some (JObject [(''passwordField'', JString '''')]))
   = Inl (ValidationError [([Key ''passwordField''], any_empty)])"
  by (simp add: validateLocal_result local_schema local_children_def as_object_def under_def)

text \<open>
  Claim C2, as amended. A \<^verbatim>\<open>LocalAuthentication\<close> candidate with an accepted \<^verbatim>\<open>verify\<close>,
  without \<^verbatim>\<open>usernameField\<close> and \<^verbatim>\<open>passwordField\<close> and without undeclared keys is
  accepted by \<^verbatim>\<open>validateLocalAuthConfig\<close>; the value returned has the keys of the
  candidate and no others, so both fields are still absent: the schema sets no
  default.
\<close>

theorem local_no_defaults:
  assumes "map_of kvs ''verify'' = Some v"
    and "accepted L middleware v"
    and "map_of kvs ''usernameField'' = None"
    and "map_of kvs ''passwordField'' = None"
    and "only_fields local_fields kvs"
  shows "\<exists>kvs'. validateLocalAuthConfig L middleware (Some (JObject kvs)) = Inr (Some (JObject kvs'))
           \<and> map_of kvs' ''usernameField'' = None
           \<and> map_of kvs' ''passwordField'' = None
           \<and> map fst kvs' = map fst kvs"
proof -
  let ?kvs' = "snd (validate_children L (local_children middleware) kvs)"
  have keys: "map fst ?kvs' = map fst kvs"
    by (rule children_keys)
  have absent: "map_of ?kvs' k = None" if "map_of kvs k = None" for k
    using that keys by (metis map_of_eq_None_iff set_map)
  have "list_all (child_passes L kvs) (local_children middleware)"
    using assms(1-4)
    by (simp add: local_children_def child_passes_def accepted_def del: validate_rule.simps)
  moreover have "distinct (map fst (local_children middleware))"
    by (simp add: local_children_keys local_fields_def)
  moreover have "only_fields (map fst (local_children middleware)) kvs"
    using assms(5) by (simp add: local_children_keys)
  ultimately have "validate_rule L (localAuthenticationSchema middleware) (JObject kvs)
      = ([], JObject ?kvs')"
    by (simp add: local_schema object_accepted del: validate_rule.simps)
  then have "validateLocalAuthConfig L middleware (Some (JObject kvs)) = Inr (Some (JObject ?kvs'))"
    by (simp add: validateLocal_result del: validate_rule.simps)
  with absent [OF assms(3)] absent [OF assms(4)] keys show ?thesis
    by blast
qed

text \<open>The amended claim C2 at a candidate that holds \<^verbatim>\<open>verify\<close> only.\<close>

theorem local_no_defaults_witness:
  "accepted example_conversions anyMiddlewareObject (JObject [(''name'', JString ''verifyUser'')])
   \<and> only_fields local_fields [(''verify'', JObject [(''name'', JString ''verifyUser'')])]
   \<and> (\<exists>kvs'. validateLocalAuthConfig example_conversions anyMiddlewareObject
          (Some (JObject [(''verify'', JObject [(''name'', JString ''verifyUser'')])]))
        = Inr (Some (JObject kvs'))
        \<and> map_of kvs' ''usernameField'' = None
        \<and> map_of kvs' ''passwordField'' = None
        \<and> map fst kvs' = [''verify''])"
proof -
  have a: "map_of [(''verify'', JObject [(''name'', JString ''verifyUser'')])] ''verify''
      = Some (JObject [(''name'', JString ''verifyUser'')])"
    by simp
  have b: "accepted example_conversions anyMiddlewareObject
      (JObject [(''name'', JString ''verifyUser'')])"
    by (simp add: accepted_def anyMiddlewareObject_def Joi_object_def as_object_def)
  have c: "map_of [(''verify'', JObject [(''name'', JString ''verifyUser'')])] ''usernameField'' = None"
    by simp
  have d: "map_of [(''verify'', JObject [(''name'', JString ''verifyUser'')])] ''passwordField'' = None"
    by simp
  have e: "only_fields local_fields [(''verify'', JObject [(''name'', JString ''verifyUser'')])]"
    by (simp add: only_fields_def local_fields_def)
  from local_no_defaults [OF a b c d e] b e show ?thesis by simp
qed

text \<open>
  Claim C2 as stated fails: the value returned for a candidate that holds \<^verbatim>\<open>verify\<close>
  only is the candidate itself, with no \<^verbatim>\<open>usernameField\<close> and no \<^verbatim>\<open>passwordField\<close>.
\<close>

theorem local_no_defaults_counterexample:
  "validateLocalAuthConfig example_conversions anyMiddlewareObject
     (Some (JObject [(''verify'', JObject [(''name'', JString ''verifyUser'')])]))
   = Inr (Some (JObject [(''verify'', JObject [(''name'', JString ''verifyUser'')])]))"
  by (simp add: validateLocal_result local_schema local_children_def as_object_def
      anyMiddlewareObject_def Joi_object_def unknown_keys_def)

text \<open>
  Claim C8. For every input, each entry point does exactly one of two things: when
  the evaluator reports violations it throws the \<^verbatim>\<open>ValidationError\<close> that wraps them
  and returns nothing, although the result of the evaluator also carries a value;
  when the evaluator reports none it returns the value of the result.
\<close>

theorem throw_or_return:
  "((\<exists>e. error (Joi_validate L config (localAuthenticationSchema middleware)) = Some e
        \<and> validateLocalAuthConfig L middleware config = Inl (ValidationError e))
    \<or> (error (Joi_validate L config (localAuthenticationSchema middleware)) = None
        \<and> validateLocalAuthConfig L middleware config
            = Inr (result_value (Joi_validate L config (localAuthenticationSchema middleware)))))
 \<and> ((\<exists>e. error (Joi_validate L config (basicAuthenticationSchema middleware)) = Some e
        \<and> validateBasicAuthConfig L middleware config = Inl (ValidationError e))
    \<or> (error (Joi_validate L config (basicAuthenticationSchema middleware)) = None
        \<and> validateBasicAuthConfig L middleware config
            = Inr (result_value (Joi_validate L config (basicAuthenticationSchema middleware)))))
 \<and> ((\<exists>e. error (Joi_validate L config (jwtAuthenticationSchema middleware)) = Some e
        \<and> validateJwtAuthConfig L middleware config = Inl (ValidationError e))
    \<or> (error (Joi_validate L config (jwtAuthenticationSchema middleware)) = None
        \<and> validateJwtAuthConfig L middleware config
            = Inr (result_value (Joi_validate L config (jwtAuthenticationSchema middleware)))))"
proof (intro conjI)
  show "(\<exists>e. error (Joi_validate L config (localAuthenticationSchema middleware)) = Some e
        \<and> validateLocalAuthConfig L middleware config = Inl (ValidationError e))
    \<or> (error (Joi_validate L config (localAuthenticationSchema middleware)) = None
        \<and> validateLocalAuthConfig L middleware config
            = Inr (result_value (Joi_validate L config (localAuthenticationSchema middleware))))"
    by (cases "error (Joi_validate L config (localAuthenticationSchema middleware))")
      (simp_all add: validateLocalAuthConfig_def)
next
  show "(\<exists>e. error (Joi_validate L config (basicAuthenticationSchema middleware)) = Some e
        \<and> validateBasicAuthConfig L middleware config = Inl (ValidationError e))
    \<or> (error (Joi_validate L config (basicAuthenticationSchema middleware)) = None
        \<and> validateBasicAuthConfig L middleware config
            = Inr (result_value (Joi_validate L config (basicAuthenticationSchema middleware))))"
    by (cases "error (Joi_validate L config (basicAuthenticationSchema middleware))")
      (simp_all add: validateBasicAuthConfig_def)
next
  show "(\<exists>e. error (Joi_validate L config (jwtAuthenticationSchema middleware)) = Some e
        \<and> validateJwtAuthConfig L middleware config = Inl (ValidationError e))
    \<or> (error (Joi_validate L config (jwtAuthenticationSchema middleware)) = None
        \<and> validateJwtAuthConfig L middleware config
            = Inr (result_value (Joi_validate L config (jwtAuthenticationSchema middleware))))"
    by (cases "error (Joi_validate L config (jwtAuthenticationSchema middleware))")
      (simp_all add: validateJwtAuthConfig_def)
qed

text \<open>
  Claim C8 at a candidate whose \<^verbatim>\<open>ignoreExpiration\<close> was already converted when
  \<^verbatim>\<open>issuer\<close> failed: the result of the evaluator holds the half-converted value next
  to the error, the entry point only throws.
\<close>

theorem throw_or_return_witness:
  "Joi_validate example_conversions
     (Some (JObject [(''ignoreExpiration'', JString ''true''), (''issuer'', JNumber 5)]))
     (jwtAuthenticationSchema anyMiddlewareObject)
   = \<lparr>error = Some [([Key ''issuer''], string_base)],
      result_value = Some (JObject [(''ignoreExpiration'', JBool True), (''issuer'', JNumber 5)])\<rparr>
   \<and> validateJwtAuthConfig example_conversions anyMiddlewareObject
        (Some (JObject [(''ignoreExpiration'', JString ''true''), (''issuer'', JNumber 5)]))
      = Inl (ValidationError [([Key ''issuer''], string_base)])"
proof -
  have r: "Joi_validate example_conversions
     (Some (JObject [(''ignoreExpiration'', JString ''true''), (''issuer'', JNumber 5)]))
     (jwtAuthenticationSchema anyMiddlewareObject)
   = \<lparr>error = Some [([Key ''issuer''], string_base)],
      result_value = Some (JObject [(''ignoreExpiration'', JBool True), (''issuer'', JNumber 5)])\<rparr>"
    by (simp add: Joi_validate_result jwt_schema jwt_children_def as_object_def under_def
        example_conversions_def)
  from throw_or_return [of example_conversions
      "Some (JObject [(''ignoreExpiration'', JString ''true''), (''issuer'', JNumber 5)])"
      anyMiddlewareObject] r
  show ?thesis by simp
qed

text \<open>
  Claim C1, as amended. A candidate object with neither or both of \<^verbatim>\<open>strategy\<close> and
  \<^verbatim>\<open>use\<close> is rejected by \<^verbatim>\<open>apiAuthenticationValidatorSchema\<close>, whatever else it holds.
  Among the candidates whose fields are valid one by one (\<^verbatim>\<open>group\<close> a non-empty string
  or a list of non-empty strings, \<^verbatim>\<open>strategy\<close> accepted by the middleware rules, \<^verbatim>\<open>use\<close>
  a non-empty string, no other key), validation succeeds exactly when one of
  \<^verbatim>\<open>strategy\<close> and \<^verbatim>\<open>use\<close> is present and the other is absent.
\<close>

theorem api_exactly_one:
  "((map_of kvs ''strategy'' = None) = (map_of kvs ''use'' = None) \<longrightarrow>
      error (Joi_validate L (Some (JObject kvs)) (apiAuthenticationValidatorSchema middleware)) \<noteq> None)
   \<and> (api_fields_valid L middleware kvs \<longrightarrow>
        (error (Joi_validate L (Some (JObject kvs)) (apiAuthenticationValidatorSchema middleware)) = None)
        = ((map_of kvs ''strategy'' = None) \<noteq> (map_of kvs ''use'' = None)))"
proof (intro conjI impI)
  assume "(map_of kvs ''strategy'' = None) = (map_of kvs ''use'' = None)"
  then have "dependencies [[''strategy'', ''use'']] kvs \<noteq> []"
    by (simp add: api_dependencies del: dependencies.simps)
  then have "fst (validate_rule L (apiAuthenticationValidatorSchema middleware) (JObject kvs)) \<noteq> []"
    by (simp add: api_schema object_result del: validate_rule.simps dependencies.simps)
  then show "error (Joi_validate L (Some (JObject kvs)) (apiAuthenticationValidatorSchema middleware)) \<noteq> None"
    by (simp add: Joi_validate_error del: validate_rule.simps)
next
  assume valid: "api_fields_valid L middleware kvs"
  have "distinct (map fst (api_children middleware))"
    by (simp add: api_children_keys api_fields_def)
  then have "fst (validate_children L (api_children middleware) kvs) = []"
    using api_children_pass [OF valid] by (rule children_pass)
  moreover from valid have "unknown_keys (api_children middleware) kvs = []"
    by (intro unknown_keys_Nil) (simp add: api_children_keys api_fields_valid_def)
  ultimately have "fst (validate_rule L (apiAuthenticationValidatorSchema middleware) (JObject kvs))
      = dependencies [[''strategy'', ''use'']] kvs"
    by (simp add: api_schema object_result del: validate_rule.simps dependencies.simps)
  then show "(error (Joi_validate L (Some (JObject kvs)) (apiAuthenticationValidatorSchema middleware)) = None)
        = ((map_of kvs ''strategy'' = None) \<noteq> (map_of kvs ''use'' = None))"
    by (simp add: Joi_validate_error api_dependencies del: validate_rule.simps dependencies.simps)
qed

text \<open>
  The amended claim C1 at the four candidates of the specification: \<^verbatim>\<open>use\<close> only,
  \<^verbatim>\<open>strategy\<close> only, neither, both.
\<close>

theorem api_exactly_one_witness:
  "api_fields_valid example_conversions anyMiddlewareObject [(''use'', JString ''foo'')]
   \<and> error (Joi_validate example_conversions (Some (JObject [(''use'', JString ''foo'')]))
        (apiAuthenticationValidatorSchema anyMiddlewareObject)) = None
   \<and> api_fields_valid example_conversions anyMiddlewareObject
        [(''strategy'', JObject [(''name'', JString ''jwt'')])]
   \<and> error (Joi_validate example_conversions
        (Some (JObject [(''strategy'', JObject [(''name'', JString ''jwt'')])]))
        (apiAuthenticationValidatorSchema anyMiddlewareObject)) = None
   \<and> error (Joi_validate example_conversions (Some (JObject []))
        (apiAuthenticationValidatorSchema anyMiddlewareObject)) \<noteq> None
   \<and> error (Joi_validate example_conversions
        (Some (JObject [(''strategy'', JObject [(''name'', JString ''jwt'')]),
                        (''use'', JString ''foo'')]))
        (apiAuthenticationValidatorSchema anyMiddlewareObject)) \<noteq> None"
proof -
  have a: "api_fields_valid example_conversions anyMiddlewareObject [(''use'', JString ''foo'')]"
    by (simp add: api_fields_valid_def only_fields_def api_fields_def absent_or_def is_text_def)
  have b: "api_fields_valid example_conversions anyMiddlewareObject
        [(''strategy'', JObject [(''name'', JString ''jwt'')])]"
    by (simp add: api_fields_valid_def only_fields_def api_fields_def absent_or_def accepted_def
        anyMiddlewareObject_def Joi_object_def as_object_def)
  from a b
    api_exactly_one [of "[(''use'', JString ''foo'')]" example_conversions anyMiddlewareObject]
    api_exactly_one [of "[(''strategy'', JObject [(''name'', JString ''jwt'')])]"
      example_conversions anyMiddlewareObject]
    api_exactly_one [of "[]" example_conversions anyMiddlewareObject]
    api_exactly_one [of "[(''strategy'', JObject [(''name'', JString ''jwt'')]),
      (''use'', JString ''foo'')]" example_conversions anyMiddlewareObject]
  show ?thesis by simp
qed

text \<open>
  Claim C1 as stated fails: a candidate with only \<^verbatim>\<open>use\<close>, a string, is rejected when
  the string is empty.
\<close>

theorem api_exactly_one_counterexample:
  "error (Joi_validate example_conversions (Some (JObject [(''use'', JString '''')]))
     (apiAuthenticationValidatorSchema anyMiddlewareObject))
   = Some [([Key ''use''], any_empty)]"
  by (simp add: Joi_validate_result api_schema api_children_def as_object_def under_def)

text \<open>
  Claim C3, as amended. When a candidate validates against
  \<^verbatim>\<open>apiAuthenticationValidatorSchema\<close>, a \<^verbatim>\<open>group\<close> that is a bare string which is not
  the JSON text of an array is the same bare string in the result (it is not wrapped
  in a list), and a \<^verbatim>\<open>group\<close> that is a list is the same list in the result.
\<close>

theorem api_group_kept:
  assumes "Joi_validate L (Some (JObject kvs)) (apiAuthenticationValidatorSchema middleware)
             = \<lparr>error = None, result_value = Some (JObject kvs')\<rparr>"
  shows "(\<forall>s. map_of kvs ''group'' = Some (JString s) \<and> as_array L (JString s) = None
              \<longrightarrow> map_of kvs' ''group'' = Some (JString s))
       \<and> (\<forall>xs. map_of kvs ''group'' = Some (JArray xs)
              \<longrightarrow> map_of kvs' ''group'' = Some (JArray xs))"
proof -
  let ?cs = "api_children middleware"
  from assms have ok: "fst (validate_rule L (apiAuthenticationValidatorSchema middleware) (JObject kvs)) = []"
    and res: "snd (validate_rule L (apiAuthenticationValidatorSchema middleware) (JObject kvs)) = JObject kvs'"
    by (simp_all add: Joi_validate_result del: validate_rule.simps split: if_splits)
  from ok have cok: "fst (validate_children L ?cs kvs) = []"
    by (simp add: api_schema object_result del: validate_rule.simps dependencies.simps split: if_splits)
  from res have kvs': "kvs' = snd (validate_children L ?cs kvs)"
    by (simp add: api_schema object_result del: validate_rule.simps dependencies.simps split: if_splits)
  have d: "distinct (map fst ?cs)"
    by (simp add: api_children_keys api_fields_def)
  have mem: "(''group'', Optional, group_rule) \<in> set ?cs"
    by (simp add: api_children_def)
  have look: "map_of kvs' ''group'' = Some (snd (validate_rule L group_rule g))"
    and acc: "fst (validate_rule L group_rule g) = []"
    if g: "map_of kvs ''group'' = Some g" for g
  proof -
    show "map_of kvs' ''group'' = Some (snd (validate_rule L group_rule g))"
      unfolding kvs' using d cok mem g by (rule children_lookup)
    show "fst (validate_rule L group_rule g) = []"
      using children_child_fails [OF d mem g] cok by blast
  qed
  show ?thesis
  proof (intro conjI allI impI)
    fix s
    assume "map_of kvs ''group'' = Some (JString s) \<and> as_array L (JString s) = None"
    then have g: "map_of kvs ''group'' = Some (JString s)" and n: "as_array L (JString s) = None"
      by simp_all
    from look [OF g] group_string_result [OF n acc [OF g]]
    show "map_of kvs' ''group'' = Some (JString s)" by simp
  next
    fix xs
    assume g: "map_of kvs ''group'' = Some (JArray xs)"
    from look [OF g] group_array_result [OF acc [OF g]]
    show "map_of kvs' ''group'' = Some (JArray xs)" by simp
  qed
qed

text \<open>The amended claim C3 at a candidate whose \<^verbatim>\<open>group\<close> is a list of two strings.\<close>

theorem api_group_kept_witness:
  "Joi_validate example_conversions
     (Some (JObject [(''group'', JArray [JString ''a'', JString ''b'']), (''use'', JString ''foo'')]))
     (apiAuthenticationValidatorSchema anyMiddlewareObject)
   = \<lparr>error = None,
      result_value =
        Some (JObject [(''group'', JArray [JString ''a'', JString ''b'']), (''use'', JString ''foo'')])\<rparr>
   \<and> map_of [(''group'', JArray [JString ''a'', JString ''b'']), (''use'', JString ''foo'')] ''group''
      = Some (JArray [JString ''a'', JString ''b''])"
proof -
  have h: "Joi_validate example_conversions
     (Some (JObject [(''group'', JArray [JString ''a'', JString ''b'']), (''use'', JString ''foo'')]))
     (apiAuthenticationValidatorSchema anyMiddlewareObject)
   = \<lparr>error = None,
      result_value =
        Some (JObject [(''group'', JArray [JString ''a'', JString ''b'']), (''use'', JString ''foo'')])\<rparr>"
    by (simp add: Joi_validate_result api_schema api_children_def group_rule_def as_object_def
        as_array_def unknown_keys_def)
  from api_group_kept [OF h] h show ?thesis by simp
qed

text \<open>
  Claim C3 as stated fails: the bare string \<^verbatim>\<open>admins\<close> comes back as the bare string,
  not as a list of one element.
\<close>

theorem api_group_kept_counterexample:
  "Joi_validate example_conversions
     (Some (JObject [(''group'', JString ''admins''), (''use'', JString ''foo'')]))
     (apiAuthenticationValidatorSchema anyMiddlewareObject)
   = \<lparr>error = None,
      result_value = Some (JObject [(''group'', JString ''admins''), (''use'', JString ''foo'')])\<rparr>"
  by (simp add: Joi_validate_result api_schema api_children_def group_rule_def as_object_def
      as_array_def unknown_keys_def example_conversions_def under_def)

text \<open>
  Claim C7, as amended. Take any candidate object that \<^verbatim>\<open>validateJwtAuthConfig\<close>
  accepts and set its \<^verbatim>\<open>extractFrom\<close> to an object that holds any of the five
  extraction fields, each with a value the string rule accepts, that is, a non-empty
  string: the entry point accepts the new candidate too, however many of the five
  are set at once. No rule ties the five fields to one another.
\<close>

theorem extractor_fields_not_exclusive:
  assumes "validateJwtAuthConfig L middleware (Some (JObject kvs)) = Inr result"
    and "only_fields extractor_fields ekvs"
    and "list_all (\<lambda>k. absent_or (accepted L Joi_string) (map_of ekvs k)) extractor_fields"
  shows "\<exists>kvs'. validateJwtAuthConfig L middleware
           (Some (JObject (AList.update ''extractFrom'' (JObject ekvs) kvs)))
         = Inr (Some (JObject kvs'))"
proof -
  let ?cs = "jwt_children middleware"
  let ?cand = "AList.update ''extractFrom'' (JObject ekvs) kvs"
  have d: "distinct (map fst ?cs)"
    by (simp add: jwt_children_keys jwt_fields_def)
  from assms(1) have ok: "fst (validate_rule L (jwtAuthenticationSchema middleware) (JObject kvs)) = []"
    by (simp add: validateJwt_result del: validate_rule.simps split: if_splits)
  then have cok: "fst (validate_children L ?cs kvs) = []"
    and unk: "unknown_keys ?cs kvs = []"
    by (simp_all add: jwt_schema object_result del: validate_rule.simps split: if_splits)
  from d cok have before: "list_all (child_passes L kvs) ?cs"
    by (rule children_success_passes)
  have ext: "child_passes L ?cand (''extractFrom'', Optional, jwtRequestExtractorSchema)"
    using extractor_fieldwise [OF assms(2,3)]
    by (simp add: child_passes_def update_conv' accepted_def del: validate_rule.simps)
  have "child_passes L ?cand c" if c: "c \<in> set ?cs" for c
  proof (cases "fst c = ''extractFrom''")
    case True
    with c have "c = (''extractFrom'', Optional, jwtRequestExtractorSchema)"
      by (auto simp: jwt_children_def)
    with ext show ?thesis by simp
  next
    case False
    then have "child_passes L ?cand c = child_passes L kvs c"
      by (rule child_passes_update)
    with before c show ?thesis by (simp add: list_all_iff)
  qed
  then have after: "list_all (child_passes L ?cand) ?cs"
    by (simp add: list_all_iff)
  from unk have "only_fields (map fst ?cs) kvs"
    by (rule unknown_keys_only_fields)
  then have "only_fields (map fst ?cs) ?cand"
    by (intro only_fields_update) (simp_all add: jwt_children_keys jwt_fields_def)
  with d after have "validate_rule L (jwtAuthenticationSchema middleware) (JObject ?cand)
      = ([], JObject (snd (validate_children L ?cs ?cand)))"
    by (simp add: jwt_schema object_accepted del: validate_rule.simps)
  then show ?thesis
    by (simp add: validateJwt_result del: validate_rule.simps)
qed

text \<open>
  The amended claim C7 at a candidate with one extraction field, replaced by three
  fields at once.
\<close>

theorem extractor_fields_not_exclusive_witness:
  "validateJwtAuthConfig example_conversions anyMiddlewareObject
     (Some (JObject [(''secretOrKey'', JString ''shhh''),
                     (''extractFrom'', JObject [(''header'', JString ''x-token'')])]))
   = Inr (Some (JObject [(''secretOrKey'', JString ''shhh''),
                         (''extractFrom'', JObject [(''header'', JString ''x-token'')])]))
   \<and> only_fields extractor_fields
        [(''header'', JString ''x-token''), (''cookie'', JString ''jwt''),
         (''queryParam'', JString ''token'')]
   \<and> validateJwtAuthConfig example_conversions anyMiddlewareObject
        (Some (JObject
          [(''secretOrKey'', JString ''shhh''),
           (''extractFrom'', JObject
              [(''header'', JString ''x-token''), (''cookie'', JString ''jwt''),
               (''queryParam'', JString ''token'')])]))
      = Inr (Some (JObject
          [(''secretOrKey'', JString ''shhh''),
           (''extractFrom'', JObject
              [(''header'', JString ''x-token''), (''cookie'', JString ''jwt''),
               (''queryParam'', JString ''token'')])]))"
proof -
  have a: "validateJwtAuthConfig example_conversions anyMiddlewareObject
     (Some (JObject [(''secretOrKey'', JString ''shhh''),
                     (''extractFrom'', JObject [(''header'', JString ''x-token'')])]))
   = Inr (Some (JObject [(''secretOrKey'', JString ''shhh''),
                         (''extractFrom'', JObject [(''header'', JString ''x-token'')])]))"
    by (simp add: validateJwt_result jwt_schema jwt_children_def extractor_schema
        extractor_children_def as_object_def unknown_keys_def)
  have b: "only_fields extractor_fields
        [(''header'', JString ''x-token''), (''cookie'', JString ''jwt''),
         (''queryParam'', JString ''token'')]"
    by (simp add: only_fields_def extractor_fields_def)
  have c: "list_all (\<lambda>k. absent_or (accepted example_conversions Joi_string) (map_of
        [(''header'', JString ''x-token''), (''cookie'', JString ''jwt''),
         (''queryParam'', JString ''token'')] k)) extractor_fields"
    by (simp add: extractor_fields_def absent_or_def accepted_def Joi_string_def)
  from extractor_fields_not_exclusive [OF a b c] a b show ?thesis
    by (simp add: validateJwt_result jwt_schema jwt_children_def extractor_schema
        extractor_children_def as_object_def unknown_keys_def)
qed

text \<open>
  Claim C7 as stated fails: \<^verbatim>\<open>header\<close> and \<^verbatim>\<open>cookie\<close> are both set, each a string,
  and the candidate is valid otherwise, but the empty \<^verbatim>\<open>header\<close> is rejected.
\<close>

theorem extractor_fields_not_exclusive_counterexample:
  "validateJwtAuthConfig example_conversions anyMiddlewareObject
     (Some (JObject
        [(''secretOrKey'', JString ''shhh''),
         (''extractFrom'', JObject [(''header'', JString ''''), (''cookie'', JString ''jwt'')])]))
   = Inl (ValidationError [([Key ''extractFrom'', Key ''header''], any_empty)])"
  by (simp add: validateJwt_result jwt_schema jwt_children_def extractor_schema
      extractor_children_def as_object_def under_def)

end
